theory Spec2Isabelle
  imports Main
begin

section \<open>The download, conversion and run script \<^verbatim>\<open>main.py\<close>\<close>

text \<open>
  The script resolves a model alias, derives its paths, fetches the model's
  configuration, and then runs five stages in order: download, a check of the
  checkpoint files, the synchronisation of the converter's repository, the
  conversion and an optional test run.

  A Python string is a \<^typ>\<open>string\<close>, the list of the bytes of its UTF-8
  encoding; an ASCII character is one byte, any other character a sequence of two
  to four bytes. Searching, splitting and joining at ASCII characters give the
  same result on the encoding as on the characters. What the script prints is not
  modelled.
\<close>

subsection \<open>String and dictionary operations of Python used by the script\<close>

text \<open>\<^verbatim>\<open>t.startswith(s)\<close>\<close>

fun startswith :: "string \<Rightarrow> string \<Rightarrow> bool" where
  "startswith t [] = True"
| "startswith [] (c # s) = False"
| "startswith (d # t) (c # s) = (d = c \<and> startswith t s)"

text \<open>\<^verbatim>\<open>s in t\<close> on strings: \<open>s\<close> occurs in \<open>t\<close> as a contiguous substring.\<close>

fun str_in :: "string \<Rightarrow> string \<Rightarrow> bool" where
  "str_in s [] = (s = [])"
| "str_in s (c # t) = (startswith (c # t) s \<or> str_in s t)"

text \<open>
  \<^verbatim>\<open>s.split(sep)\<close> for a separator of one character; \<open>acc\<close> is the segment read
  so far. The result is never empty.
\<close>

fun split_acc :: "char \<Rightarrow> string \<Rightarrow> string \<Rightarrow> string list" where
  "split_acc sep acc [] = [acc]"
| "split_acc sep acc (c # cs) =
     (if c = sep then acc # split_acc sep [] cs else split_acc sep (acc @ [c]) cs)"

definition split :: "string \<Rightarrow> char \<Rightarrow> string list" where
  "split s sep = split_acc sep [] s"

text \<open>
  The characters of a string: the first byte of a character tells how many bytes
  it has. A string that is cut off inside its last character ends with an
  incomplete one.
\<close>

definition utf8_len :: "char \<Rightarrow> nat" where
  "utf8_len c =
     (if (of_char c :: nat) < 192 then 1
      else if (of_char c :: nat) < 224 then 2
      else if (of_char c :: nat) < 240 then 3
      else 4)"

fun utf8_chars :: "string \<Rightarrow> string list" where
  "utf8_chars [] = []"
| "utf8_chars (c # cs) = (c # take (utf8_len c - 1) cs) # utf8_chars (drop (utf8_len c - 1) cs)"

definition complete_char :: "string \<Rightarrow> bool" where
  "complete_char s = (s \<noteq> [] \<and> length s = utf8_len (hd s))"

text \<open>
  \<^verbatim>\<open>s.upper()\<close> replaces every character by its upper-case form. For an ASCII
  character this moves the letters \<open>a\<close> to \<open>z\<close> (codes 97 to 122) to \<open>A\<close> to
  \<open>Z\<close> and keeps everything else. For any other character the upper-case form
  is given by the case table of Unicode, which is not part of the script: it is
  the parameter \<open>uc\<close>, from the encoding of a character to the encoding of its
  upper-case form, which may be several characters long.
\<close>

definition islower_char :: "char \<Rightarrow> bool" where
  "islower_char c = (97 \<le> (of_char c :: nat) \<and> (of_char c :: nat) \<le> 122)"

definition upper_char :: "char \<Rightarrow> char" where
  "upper_char c = (if islower_char c then char_of ((of_char c :: nat) - 32) else c)"

definition upper_one :: "(string \<Rightarrow> string) \<Rightarrow> string \<Rightarrow> string" where
  "upper_one uc s =
     (if length s = 1
      then (if (of_char (hd s) :: nat) < 128 then [upper_char (hd s)] else s)
      else if complete_char s then uc s else s)"

definition upper :: "(string \<Rightarrow> string) \<Rightarrow> string \<Rightarrow> string" where
  "upper uc s = concat (map (upper_one uc) (utf8_chars s))"

text \<open>
  What is used of the case table: the upper-case form of a character is a
  string of one or more complete characters.
\<close>

definition well_formed :: "string \<Rightarrow> bool" where
  "well_formed t = list_all complete_char (utf8_chars t)"

definition case_table :: "(string \<Rightarrow> string) \<Rightarrow> bool" where
  "case_table uc = (\<forall>s. complete_char s \<longrightarrow> uc s \<noteq> [] \<and> well_formed (uc s))"

text \<open>
  \<^verbatim>\<open>d.get(k, default)\<close> on a dictionary written as the list of its items in
  insertion order. The keys of both dictionaries of the script are distinct.
\<close>

definition dict_get :: "('k \<times> 'v) list \<Rightarrow> 'k \<Rightarrow> 'v \<Rightarrow> 'v" where
  "dict_get d k dflt = (case map_of d k of None \<Rightarrow> dflt | Some v \<Rightarrow> v)"

text \<open>
  \<^verbatim>\<open>os.path.join(a, b)\<close> of \<^verbatim>\<open>posixpath\<close>: an absolute \<open>b\<close> replaces \<open>a\<close>,
  otherwise \<open>b\<close> is appended, after a separator unless \<open>a\<close> is empty or ends
  with one.
\<close>

definition path_join :: "string \<Rightarrow> string \<Rightarrow> string" where
  "path_join a b =
     (if startswith b ''/'' then b
      else if a = [] \<or> last a = CHR ''/'' then a @ b
      else a @ ''/'' @ b)"

subsection \<open>Command line, model hub and operating system\<close>

text \<open>The namespace returned by \<^verbatim>\<open>parse_args\<close>, one field per flag.\<close>

record cli_args =
  arg_model :: string
  arg_skip_download :: bool
  arg_skip_conversion :: bool
  arg_run_model :: bool
  arg_verbose :: bool

text \<open>
  The two attributes that the script reads from the configuration object; either
  may be missing. The quantization settings are a dictionary, or else a value
  that has no method \<^verbatim>\<open>get\<close>, such as \<^verbatim>\<open>None\<close>.
\<close>

datatype settings = Settings "(string \<times> string) list" | NoDict

record config =
  quantization_config :: "settings option"
  model_type :: "string option"

datatype error =
  ValueError | FileNotFoundError | CalledProcessError | OSError | AttributeError

text \<open>
  An execution is determined by the arguments, by the directory of the script
  (\<^verbatim>\<open>os.path.dirname(os.path.realpath(__file__))\<close>) and by what lies outside
  the script: the answer of \<^verbatim>\<open>AutoConfig.from_pretrained\<close>, and the file
  system \<open>'fs\<close> with \<^verbatim>\<open>os.path.exists\<close>, \<^verbatim>\<open>os.makedirs(p, exist_ok=True)\<close>,
  \<^verbatim>\<open>os.listdir\<close> and the effect of a subprocess on it. A subprocess leaves a
  file system behind and either succeeds or makes \<^verbatim>\<open>subprocess.run\<close> with
  \<^verbatim>\<open>check=True\<close> raise.
\<close>

record 'fs env =
  args :: cli_args
  SCRIPT_DIR :: string
  from_pretrained :: "string \<Rightarrow> error + config"
  path_exists :: "'fs \<Rightarrow> string \<Rightarrow> bool"
  makedirs :: "string \<Rightarrow> 'fs \<Rightarrow> error + 'fs"
  listdir :: "string \<Rightarrow> 'fs \<Rightarrow> error + string list"
  run :: "string list \<Rightarrow> 'fs \<Rightarrow> error option \<times> 'fs"

text \<open>
  The state of an execution: the file system and the argument vectors of the
  subprocesses started so far, oldest first.
\<close>

record 'fs world =
  fs :: 'fs
  procs :: "string list list"

text \<open>A stage returns the new state, or raises an error in some state.\<close>

type_synonym 'fs outcome = "(error \<times> 'fs world) + 'fs world"

definition and_then :: "'fs outcome \<Rightarrow> ('fs world \<Rightarrow> 'fs outcome) \<Rightarrow> 'fs outcome" where
  "and_then r f = (case r of Inl e \<Rightarrow> Inl e | Inr w \<Rightarrow> f w)"

text \<open>The state in which an outcome leaves the execution.\<close>

definition final :: "'fs outcome \<Rightarrow> 'fs world" where
  "final r = (case r of Inl (e, w) \<Rightarrow> w | Inr w \<Rightarrow> w)"

definition os_makedirs :: "'fs env \<Rightarrow> string \<Rightarrow> 'fs world \<Rightarrow> 'fs outcome" where
  "os_makedirs env p w =
     (case makedirs env p (fs w) of
        Inl e \<Rightarrow> Inl (e, w)
      | Inr fs' \<Rightarrow> Inr (w\<lparr>fs := fs'\<rparr>))"

text \<open>\<^verbatim>\<open>subprocess.run(cmd, check=True)\<close>\<close>

definition subprocess_run :: "'fs env \<Rightarrow> string list \<Rightarrow> 'fs world \<Rightarrow> 'fs outcome" where
  "subprocess_run env cmd w =
     (case run env cmd (fs w) of
        (None, fs') \<Rightarrow> Inr \<lparr>fs = fs', procs = procs w @ [cmd]\<rparr>
      | (Some e, fs') \<Rightarrow> Inl (e, \<lparr>fs = fs', procs = procs w @ [cmd]\<rparr>))"

subsection \<open>Alias resolution and paths\<close>

definition MODELS_ALIASES :: "(string \<times> string) list" where
  "MODELS_ALIASES =
     [(''mlx-deepseek-32b'', ''mlx-community/DeepSeek-R1-Distill-Qwen-32B''),
      (''llama-3b'', ''mlx-community/Llama-3.2-3B-Instruct'')]"

definition MODEL_NAME :: "'fs env \<Rightarrow> string" where
  "MODEL_NAME env = dict_get MODELS_ALIASES (arg_model (args env)) (arg_model (args env))"

definition DOWNLOAD_DIR :: "'fs env \<Rightarrow> string" where
  "DOWNLOAD_DIR env = path_join (SCRIPT_DIR env) ''models''"

text \<open>\<^verbatim>\<open>MODEL_NAME.split("/")[-1]\<close>; the list is never empty.\<close>

definition MODEL_SHORTNAME :: "'fs env \<Rightarrow> string" where
  "MODEL_SHORTNAME env = last (split (MODEL_NAME env) CHR ''/'')"

definition SAVE_DIR :: "'fs env \<Rightarrow> string" where
  "SAVE_DIR env = path_join (DOWNLOAD_DIR env) (MODEL_SHORTNAME env)"

definition LLAMA_CPP_DIR :: "'fs env \<Rightarrow> string" where
  "LLAMA_CPP_DIR env = path_join (SCRIPT_DIR env) ''llama.cpp''"

subsection \<open>Metadata\<close>

text \<open>
  \<^verbatim>\<open>getattr(config, "quantization_config", {}).get("quant_method", "f16")\<close>
\<close>

definition quantization_of :: "config \<Rightarrow> error + string" where
  "quantization_of cfg =
     (case quantization_config cfg of
        None \<Rightarrow> Inr (dict_get [] ''quant_method'' ''f16'')
      | Some (Settings d) \<Rightarrow> Inr (dict_get d ''quant_method'' ''f16'')
      | Some NoDict \<Rightarrow> Inl AttributeError)"

text \<open>
  The pair \<open>(model_type, quantization)\<close>, or \<open>(None, None)\<close> when anything in the
  \<^verbatim>\<open>try\<close> block raises.
\<close>

definition fetch_model_metadata :: "'fs env \<Rightarrow> string option \<times> string option" where
  "fetch_model_metadata env =
     (case from_pretrained env (MODEL_NAME env) of
        Inl e \<Rightarrow> (None, None)
      | Inr cfg \<Rightarrow>
          (case quantization_of cfg of
             Inl e \<Rightarrow> (None, None)
           | Inr quantization \<Rightarrow>
               (let mtype = (case model_type cfg of None \<Rightarrow> ''unknown'' | Some t \<Rightarrow> t)
                in (Some mtype, Some quantization))))"

definition MODEL_TYPE :: "'fs env \<Rightarrow> string option" where
  "MODEL_TYPE env = fst (fetch_model_metadata env)"

definition QUANTIZATION_TYPE :: "'fs env \<Rightarrow> string option" where
  "QUANTIZATION_TYPE env = snd (fetch_model_metadata env)"

text \<open>Truth value of a string or \<^verbatim>\<open>None\<close>.\<close>

fun truthy :: "string option \<Rightarrow> bool" where
  "truthy None = False"
| "truthy (Some s) = (s \<noteq> [])"

text \<open>
  The stages below run only once the quantization type is a string \<open>q\<close>, which
  they take as an argument. Whatever depends on the path of the artifact takes
  the case table \<open>uc\<close> as well.
\<close>

definition GGUF_PATH :: "(string \<Rightarrow> string) \<Rightarrow> 'fs env \<Rightarrow> string \<Rightarrow> string" where
  "GGUF_PATH uc env q =
     path_join (SAVE_DIR env) (MODEL_SHORTNAME env @ ''-'' @ upper uc q @ ''.gguf'')"

subsection \<open>The stages\<close>

definition download_cmd :: "'fs env \<Rightarrow> string list" where
  "download_cmd env =
     [''huggingface-cli'', ''download'', MODEL_NAME env, ''--local-dir'', SAVE_DIR env,
      ''--resume-download'']"

definition download_model :: "'fs env \<Rightarrow> 'fs world \<Rightarrow> 'fs outcome" where
  "download_model env w =
     (if \<not> arg_skip_download (args env) \<and> \<not> path_exists env (fs w) (SAVE_DIR env)
      then and_then (os_makedirs env (SAVE_DIR env) w) (subprocess_run env (download_cmd env))
      else Inr w)"

text \<open>
  The listing of the checkpoint files only decides what is printed, but
  \<^verbatim>\<open>os.listdir\<close> itself may raise.
\<close>

definition check_model_files :: "'fs env \<Rightarrow> 'fs world \<Rightarrow> 'fs outcome" where
  "check_model_files env w =
     (case listdir env (SAVE_DIR env) (fs w) of
        Inl e \<Rightarrow> Inl (e, w)
      | Inr names \<Rightarrow> Inr w)"

definition update_llama_cpp :: "'fs env \<Rightarrow> 'fs world \<Rightarrow> 'fs outcome" where
  "update_llama_cpp env w =
     and_then
       (if \<not> path_exists env (fs w) (LLAMA_CPP_DIR env)
        then subprocess_run env
               [''git'', ''clone'', ''https://github.com/ggerganov/llama.cpp'', LLAMA_CPP_DIR env] w
        else subprocess_run env [''git'', ''-C'', LLAMA_CPP_DIR env, ''pull''] w)
       (subprocess_run env [''git'', ''-C'', LLAMA_CPP_DIR env, ''checkout'', ''master''])"

definition convert_script :: "'fs env \<Rightarrow> string" where
  "convert_script env = path_join (LLAMA_CPP_DIR env) ''convert_hf_to_gguf.py''"

definition convert_cmd :: "'fs env \<Rightarrow> string \<Rightarrow> string list" where
  "convert_cmd env q = [''python3'', convert_script env, SAVE_DIR env, ''--outtype'', q]"

definition convert_model ::
  "(string \<Rightarrow> string) \<Rightarrow> 'fs env \<Rightarrow> string \<Rightarrow> 'fs world \<Rightarrow> 'fs outcome" where
  "convert_model uc env q w =
     (if \<not> path_exists env (fs w) (convert_script env) then Inl (FileNotFoundError, w)
      else if \<not> arg_skip_conversion (args env) \<and> \<not> path_exists env (fs w) (GGUF_PATH uc env q)
      then subprocess_run env (convert_cmd env q) w
      else Inr w)"

subsection \<open>The GPU-layer heuristic of the run stage\<close>

definition n_gpu_layers_mapping :: "(string \<times> string) list" where
  "n_gpu_layers_mapping =
     [(''72B'', ''40''), (''32B'', ''60''), (''14B'', ''70''), (''12B'', ''70''),
      (''7B'', ''80''), (''3B'', ''90''), (''1B'', ''100'')]"

text \<open>
  \<^verbatim>\<open>next((size for size in n_gpu_layers_mapping if size in MODEL_NAME), None)\<close>:
  the first key, in insertion order, that occurs in the model name.
\<close>

definition model_size :: "string \<Rightarrow> string option" where
  "model_size name = find (\<lambda>sz. str_in sz name) (map fst n_gpu_layers_mapping)"

text \<open>
  \<^verbatim>\<open>n_gpu_layers_mapping.get(model_size, "30")\<close>; \<^verbatim>\<open>None\<close> is not a key of
  the dictionary.
\<close>

definition n_gpu_layers :: "string \<Rightarrow> string" where
  "n_gpu_layers name =
     (case model_size name of
        None \<Rightarrow> ''30''
      | Some sz \<Rightarrow> dict_get n_gpu_layers_mapping sz ''30'')"

definition run_cmd :: "(string \<Rightarrow> string) \<Rightarrow> 'fs env \<Rightarrow> string \<Rightarrow> string list" where
  "run_cmd uc env q =
     [path_join (LLAMA_CPP_DIR env) ''build/bin/llama-cli'',
      ''-m'', GGUF_PATH uc env q,
      ''--n-gpu-layers'', n_gpu_layers (MODEL_NAME env),
      ''--ctx-size'', ''8192'',
      ''-p'', ''Write a 1000-word story.'']"

definition run_model ::
  "(string \<Rightarrow> string) \<Rightarrow> 'fs env \<Rightarrow> string \<Rightarrow> 'fs world \<Rightarrow> 'fs outcome" where
  "run_model uc env q w =
     (if \<not> arg_run_model (args env) then Inr w
      else if path_exists env (fs w) (GGUF_PATH uc env q)
      then subprocess_run env (run_cmd uc env q) w
      else Inl (FileNotFoundError, w))"

subsection \<open>The script\<close>

text \<open>The stages in the order of the \<^verbatim>\<open>__main__\<close> block.\<close>

definition stages_before_convert :: "'fs env \<Rightarrow> 'fs world \<Rightarrow> 'fs outcome" where
  "stages_before_convert env w =
     and_then (and_then (download_model env w) (check_model_files env)) (update_llama_cpp env)"

definition stages_before_run ::
  "(string \<Rightarrow> string) \<Rightarrow> 'fs env \<Rightarrow> string \<Rightarrow> 'fs world \<Rightarrow> 'fs outcome" where
  "stages_before_run uc env q w =
     and_then (stages_before_convert env w) (convert_model uc env q)"

definition main ::
  "(string \<Rightarrow> string) \<Rightarrow> 'fs env \<Rightarrow> string \<Rightarrow> 'fs world \<Rightarrow> 'fs outcome" where
  "main uc env q w = and_then (stages_before_run uc env q w) (run_model uc env q)"

text \<open>
  The module from top to bottom: the download directory is created, the metadata
  is fetched and checked, and the stages run. A quantization type that passes
  the check is a string, so the branch for \<open>None\<close> after the check is never
  taken.
\<close>

definition script :: "(string \<Rightarrow> string) \<Rightarrow> 'fs env \<Rightarrow> 'fs world \<Rightarrow> 'fs outcome" where
  "script uc env w =
     and_then (os_makedirs env (DOWNLOAD_DIR env) w)
       (\<lambda>w1. if \<not> truthy (MODEL_TYPE env) \<or> \<not> truthy (QUANTIZATION_TYPE env)
              then Inl (ValueError, w1)
              else (case QUANTIZATION_TYPE env of
                      None \<Rightarrow> Inl (ValueError, w1)
                    | Some q \<Rightarrow> main uc env q w1))"

subsection \<open>A sample execution\<close>

text \<open>
  A file system given by the list of the paths that exist, on which directory
  creation and every subprocess succeed, and a hub that knows a model without
  quantization settings. The theorems below are instantiated with it and with
  variations of it.
\<close>

definition sample_args :: cli_args where
  "sample_args =
     \<lparr>arg_model = ''mlx-deepseek-32b'', arg_skip_download = False,
      arg_skip_conversion = False, arg_run_model = True, arg_verbose = False\<rparr>"

definition sample_env :: "string list env" where
  "sample_env =
     \<lparr>args = sample_args,
      SCRIPT_DIR = ''/opt/tool'',
      from_pretrained = (\<lambda>name. Inr \<lparr>quantization_config = None, model_type = Some ''qwen2''\<rparr>),
      path_exists = (\<lambda>paths p. p \<in> set paths),
      makedirs = (\<lambda>p paths. Inr (p # paths)),
      listdir = (\<lambda>p paths. if p \<in> set paths then Inr [] else Inl FileNotFoundError),
      run = (\<lambda>cmd paths. (None, paths))\<rparr>"

text \<open>A case table that knows one letter: the sharp s (bytes C3 9F) becomes \<open>SS\<close>.\<close>

definition sample_uc :: "string \<Rightarrow> string" where
  "sample_uc s = (if s = [CHR 0xC3, CHR 0x9F] then ''SS'' else s)"

definition sample_world :: "string list world" where
  "sample_world = \<lparr>fs = [], procs = []\<rparr>"

text \<open>The same hub after the model has been replaced by a quantized one.\<close>

definition gptq_env :: "string list env" where
  "gptq_env =
     sample_env\<lparr>from_pretrained :=
       (\<lambda>name. Inr \<lparr>quantization_config =
                           Some (Settings [(''bits'', ''4''), (''quant_method'', ''gptq'')]),
                         model_type = Some ''qwen2''\<rparr>)\<rparr>"



text \<open>A file system in which no directory can be created.\<close>

definition readonly_env :: "string list env" where
  "readonly_env = sample_env\<lparr>makedirs := (\<lambda>p paths. Inl OSError)\<rparr>"

text \<open>The sample file system with the converter script in place.\<close>

definition toolchain_world :: "string list world" where
  "toolchain_world = \<lparr>fs = [convert_script sample_env], procs = []\<rparr>"

section \<open>Properties\<close>

subsection \<open>Substrings and first matches\<close>

lemma startswith_iff: "startswith t s \<longleftrightarrow> (\<exists>ss. t = s @ ss)"
  by (induction t s rule: startswith.induct) auto

text \<open>\<^const>\<open>str_in\<close> decides whether a string occurs in another one.\<close>

lemma str_in_iff: "str_in s t \<longleftrightarrow> (\<exists>ps ss. t = ps @ s @ ss)"
proof (induction t)
  case Nil
  show ?case by auto
next
  case (Cons c t)
  show ?case
  proof
    assume "str_in s (c # t)"
    then consider "startswith (c # t) s" | "str_in s t" by auto
    then show "\<exists>ps ss. c # t = ps @ s @ ss"
    proof cases
      case 1
      then obtain ss where "c # t = s @ ss" by (auto simp: startswith_iff)
      then have "c # t = [] @ s @ ss" by simp
      then show ?thesis by blast
    next
      case 2
      then obtain ps ss where "t = ps @ s @ ss" using Cons.IH by auto
      then have "c # t = (c # ps) @ s @ ss" by simp
      then show ?thesis by blast
    qed
  next
    assume "\<exists>ps ss. c # t = ps @ s @ ss"
    then obtain ps ss where e: "c # t = ps @ s @ ss" by blast
    show "str_in s (c # t)"
    proof (cases ps)
      case Nil
      with e have "startswith (c # t) s" by (auto simp: startswith_iff)
      then show ?thesis by simp
    next
      case (Cons p ps')
      with e have "t = ps' @ s @ ss" by simp
      then have "str_in s t" using Cons.IH by blast
      then show ?thesis by simp
    qed
  qed
qed

lemma find_first:
  "i < length xs \<Longrightarrow> P (xs ! i) \<Longrightarrow> (\<forall>j<i. \<not> P (xs ! j)) \<Longrightarrow> find P xs = Some (xs ! i)"
proof (induction xs arbitrary: i)
  case Nil
  then show ?case by simp
next
  case (Cons x xs)
  show ?case
  proof (cases i)
    case 0
    with Cons.prems show ?thesis by simp
  next
    case (Suc k)
    with Cons.prems have "\<not> P x" by auto
    moreover have "find P xs = Some (xs ! k)"
      using Cons.prems Suc by (intro Cons.IH) auto
    ultimately show ?thesis using Suc by simp
  qed
qed

subsection \<open>The GPU-layer heuristic\<close>

lemma model_size_first:
  assumes "i < length n_gpu_layers_mapping"
    and "str_in (fst (n_gpu_layers_mapping ! i)) name"
    and "\<forall>j<i. \<not> str_in (fst (n_gpu_layers_mapping ! j)) name"
  shows "model_size name = Some (fst (n_gpu_layers_mapping ! i))"
proof -
  let ?ks = "map fst n_gpu_layers_mapping"
  have "find (\<lambda>sz. str_in sz name) ?ks = Some (?ks ! i)"
    using assms by (intro find_first) auto
  then show ?thesis using assms(1) by (simp add: model_size_def)
qed

lemma n_gpu_layers_keys_distinct: "distinct (map fst n_gpu_layers_mapping)"
  by (simp add: n_gpu_layers_mapping_def)

lemma n_gpu_layers_first:
  assumes "i < length n_gpu_layers_mapping"
    and "str_in (fst (n_gpu_layers_mapping ! i)) name"
    and "\<forall>j<i. \<not> str_in (fst (n_gpu_layers_mapping ! j)) name"
  shows "n_gpu_layers name = snd (n_gpu_layers_mapping ! i)"
proof -
  have "map_of n_gpu_layers_mapping (fst (n_gpu_layers_mapping ! i)) =
        Some (snd (n_gpu_layers_mapping ! i))"
    using assms(1) n_gpu_layers_keys_distinct
    by (intro map_of_is_SomeI) (auto simp: set_conv_nth)
  then show ?thesis
    using model_size_first[OF assms] by (simp add: n_gpu_layers_def dict_get_def)
qed

lemma n_gpu_layers_none:
  assumes "\<forall>k \<in> set (map fst n_gpu_layers_mapping). \<not> str_in k name"
  shows "n_gpu_layers name = ''30''"
proof -
  have "find (\<lambda>sz. str_in sz name) (map fst n_gpu_layers_mapping) = None"
    using assms by (simp add: find_None_iff)
  then show ?thesis by (simp add: n_gpu_layers_def model_size_def)
qed

lemma n_gpu_layers_32B:
  assumes "str_in ''32B'' name" and "\<not> str_in ''72B'' name"
  shows "n_gpu_layers name = ''60''"
  using assms
  by (simp add: n_gpu_layers_def model_size_def n_gpu_layers_mapping_def dict_get_def)

text \<open>
  C1, as the code has it. The layer count passed to the inference binary is that
  of the first entry of the table, in its written order, whose key occurs in the
  model name. A name that contains \<open>32B\<close> and does not contain \<open>72B\<close> gets
  \<open>60\<close>; a name in which no key occurs gets the default \<open>30\<close>.
\<close>

theorem n_gpu_layers_first_match:
  "run_cmd uc env q ! 4 = n_gpu_layers (MODEL_NAME env)
   \<and> (\<forall>i < length n_gpu_layers_mapping.
         str_in (fst (n_gpu_layers_mapping ! i)) name
         \<and> (\<forall>j<i. \<not> str_in (fst (n_gpu_layers_mapping ! j)) name)
         \<longrightarrow> n_gpu_layers name = snd (n_gpu_layers_mapping ! i))
   \<and> (str_in ''32B'' name \<and> \<not> str_in ''72B'' name \<longrightarrow> n_gpu_layers name = ''60'')
   \<and> ((\<forall>k \<in> set (map fst n_gpu_layers_mapping). \<not> str_in k name)
        \<longrightarrow> n_gpu_layers name = ''30'')"
proof (intro conjI allI impI)
  show "run_cmd uc env q ! 4 = n_gpu_layers (MODEL_NAME env)"
    by (simp add: run_cmd_def)
next
  fix i
  assume "i < length n_gpu_layers_mapping"
    and "str_in (fst (n_gpu_layers_mapping ! i)) name
         \<and> (\<forall>j<i. \<not> str_in (fst (n_gpu_layers_mapping ! j)) name)"
  then show "n_gpu_layers name = snd (n_gpu_layers_mapping ! i)"
    by (intro n_gpu_layers_first) auto
next
  assume "str_in ''32B'' name \<and> \<not> str_in ''72B'' name"
  then show "n_gpu_layers name = ''60''"
    by (intro n_gpu_layers_32B) auto
next
  assume "\<forall>k \<in> set (map fst n_gpu_layers_mapping). \<not> str_in k name"
  then show "n_gpu_layers name = ''30''"
    by (rule n_gpu_layers_none)
qed

theorem n_gpu_layers_first_match_witness:
  "str_in ''32B'' ''mlx-community/DeepSeek-R1-Distill-Qwen-32B''
   \<and> \<not> str_in ''72B'' ''mlx-community/DeepSeek-R1-Distill-Qwen-32B''
   \<and> n_gpu_layers ''mlx-community/DeepSeek-R1-Distill-Qwen-32B'' = ''60''
   \<and> n_gpu_layers ''openai-community/gpt2'' = ''30''
   \<and> str_in ''7B'' ''mistralai/Mistral-7B-v0.1''
   \<and> n_gpu_layers ''mistralai/Mistral-7B-v0.1'' = ''80''"
proof -
  have a: "str_in ''32B'' ''mlx-community/DeepSeek-R1-Distill-Qwen-32B''
           \<and> \<not> str_in ''72B'' ''mlx-community/DeepSeek-R1-Distill-Qwen-32B''"
    by simp
  have b: "\<forall>k \<in> set (map fst n_gpu_layers_mapping). \<not> str_in k ''openai-community/gpt2''"
    by (simp add: n_gpu_layers_mapping_def)
  have c: "(4::nat) < length n_gpu_layers_mapping"
    by (simp add: n_gpu_layers_mapping_def)
  have d: "str_in (fst (n_gpu_layers_mapping ! 4)) ''mistralai/Mistral-7B-v0.1''"
    by (simp add: n_gpu_layers_mapping_def)
  have e: "\<forall>j<4. \<not> str_in (fst (n_gpu_layers_mapping ! j)) ''mistralai/Mistral-7B-v0.1''"
  proof (intro allI impI)
    fix j :: nat
    assume "j < 4"
    then consider "j = 0" | "j = 1" | "j = 2" | "j = 3" by linarith
    then show "\<not> str_in (fst (n_gpu_layers_mapping ! j)) ''mistralai/Mistral-7B-v0.1''"
      by cases (simp_all add: n_gpu_layers_mapping_def)
  qed
  have "n_gpu_layers ''mlx-community/DeepSeek-R1-Distill-Qwen-32B'' = ''60''"
    using n_gpu_layers_first_match
      [where name = "''mlx-community/DeepSeek-R1-Distill-Qwen-32B''"] a
    by blast
  moreover have "n_gpu_layers ''openai-community/gpt2'' = ''30''"
    using n_gpu_layers_first_match [where name = "''openai-community/gpt2''"] b
    by blast
  moreover have "n_gpu_layers ''mistralai/Mistral-7B-v0.1'' = snd (n_gpu_layers_mapping ! 4)"
    using n_gpu_layers_first_match [where name = "''mistralai/Mistral-7B-v0.1''"] c d e
    by blast
  moreover have "snd (n_gpu_layers_mapping ! 4) = ''80''"
    and "fst (n_gpu_layers_mapping ! 4) = ''7B''"
    by (simp_all add: n_gpu_layers_mapping_def)
  ultimately show ?thesis using a d by simp
qed

text \<open>
  C1 as stated fails: a name that contains both \<open>72B\<close> and \<open>32B\<close> matches the
  entry for \<open>72B\<close> first.
\<close>

theorem n_gpu_layers_32B_counterexample:
  "str_in ''32B'' ''Qwen-72B-distilled-32B'' \<and> n_gpu_layers ''Qwen-72B-distilled-32B'' \<noteq> ''60''"
  by (simp add: n_gpu_layers_def model_size_def n_gpu_layers_mapping_def dict_get_def)

subsection \<open>Alias resolution\<close>

lemma MODELS_ALIASES_keys_distinct: "distinct (map fst MODELS_ALIASES)"
  by (simp add: MODELS_ALIASES_def)

lemma dict_get_key:
  "distinct (map fst d) \<Longrightarrow> (k, v) \<in> set d \<Longrightarrow> dict_get d k dflt = v"
  by (simp add: dict_get_def)

lemma dict_get_default:
  assumes "k \<notin> fst ` set d"
  shows "dict_get d k dflt = dflt"
proof -
  have "map_of d k = None" using assms by (simp add: map_of_eq_None_iff)
  then show ?thesis by (simp add: dict_get_def)
qed

text \<open>
  C2. The resolved model name is the value of the alias table when the argument is
  one of its keys, and the argument itself, unchanged and unchecked, otherwise.
  It depends on nothing but the argument.
\<close>

theorem MODEL_NAME_lookup_or_passthrough:
  "(\<forall>v. (arg_model (args env), v) \<in> set MODELS_ALIASES \<longrightarrow> MODEL_NAME env = v)
   \<and> (arg_model (args env) \<notin> fst ` set MODELS_ALIASES \<longrightarrow> MODEL_NAME env = arg_model (args env))
   \<and> MODEL_NAME env =
       (if arg_model (args env) = ''mlx-deepseek-32b''
          then ''mlx-community/DeepSeek-R1-Distill-Qwen-32B''
        else if arg_model (args env) = ''llama-3b''
          then ''mlx-community/Llama-3.2-3B-Instruct''
        else arg_model (args env))
   \<and> (arg_model (args env') = arg_model (args env) \<longrightarrow> MODEL_NAME env' = MODEL_NAME env)"
proof (intro conjI allI impI)
  fix v
  assume "(arg_model (args env), v) \<in> set MODELS_ALIASES"
  then show "MODEL_NAME env = v"
    unfolding MODEL_NAME_def using MODELS_ALIASES_keys_distinct by (intro dict_get_key)
next
  assume "arg_model (args env) \<notin> fst ` set MODELS_ALIASES"
  then show "MODEL_NAME env = arg_model (args env)"
    unfolding MODEL_NAME_def by (rule dict_get_default)
next
  show "MODEL_NAME env =
       (if arg_model (args env) = ''mlx-deepseek-32b''
          then ''mlx-community/DeepSeek-R1-Distill-Qwen-32B''
        else if arg_model (args env) = ''llama-3b''
          then ''mlx-community/Llama-3.2-3B-Instruct''
        else arg_model (args env))"
    by (simp add: MODEL_NAME_def dict_get_def MODELS_ALIASES_def)
next
  assume "arg_model (args env') = arg_model (args env)"
  then show "MODEL_NAME env' = MODEL_NAME env"
    by (simp add: MODEL_NAME_def)
qed

theorem MODEL_NAME_lookup_or_passthrough_witness:
  "MODEL_NAME sample_env = ''mlx-community/DeepSeek-R1-Distill-Qwen-32B''
   \<and> MODEL_NAME (sample_env\<lparr>args := sample_args\<lparr>arg_model := ''org/Custom-7B''\<rparr>\<rparr>) = ''org/Custom-7B''
   \<and> MODEL_NAME (sample_env\<lparr>SCRIPT_DIR := ''/srv''\<rparr>) = MODEL_NAME sample_env"
proof -
  let ?e = "sample_env\<lparr>args := sample_args\<lparr>arg_model := ''org/Custom-7B''\<rparr>\<rparr>"
  let ?e' = "sample_env\<lparr>SCRIPT_DIR := ''/srv''\<rparr>"
  have a: "(arg_model (args sample_env), ''mlx-community/DeepSeek-R1-Distill-Qwen-32B'')
           \<in> set MODELS_ALIASES"
    by (simp add: sample_env_def sample_args_def MODELS_ALIASES_def)
  have b: "arg_model (args ?e) \<notin> fst ` set MODELS_ALIASES"
    by (simp add: MODELS_ALIASES_def)
  have b': "arg_model (args ?e) = ''org/Custom-7B''"
    by simp
  have c: "arg_model (args ?e') = arg_model (args sample_env)"
    by simp
  have "MODEL_NAME sample_env = ''mlx-community/DeepSeek-R1-Distill-Qwen-32B''"
    using MODEL_NAME_lookup_or_passthrough [of sample_env] a by blast
  moreover have "MODEL_NAME ?e = arg_model (args ?e)"
    using MODEL_NAME_lookup_or_passthrough [of ?e] b by blast
  moreover have "MODEL_NAME ?e' = MODEL_NAME sample_env"
    using MODEL_NAME_lookup_or_passthrough [of sample_env ?e'] c by blast
  ultimately show ?thesis using b' by simp
qed

subsection \<open>Outcomes and the log of subprocesses\<close>

lemma final_subprocess_run:
  "procs (final (subprocess_run env cmd w)) = procs w @ [cmd]"
  by (simp add: subprocess_run_def final_def split: prod.splits option.splits)

lemma and_then_Inr [simp]: "and_then (Inr w) f = f w"
  by (simp add: and_then_def)

lemma and_then_Inl [simp]: "and_then (Inl e) f = Inl e"
  by (simp add: and_then_def)

lemma final_Inr [simp]: "final (Inr w) = w"
  by (simp add: final_def)

lemma final_Inl [simp]: "final (Inl (e, w)) = w"
  by (simp add: final_def)

subsection \<open>The run stage\<close>

text \<open>
  C9. Without the run flag the run stage returns normally and leaves the state as
  it is, whatever the file system answers about the artifact; and whenever the run
  stage raises, the run flag was set.
\<close>

theorem run_model_not_requested:
  "(\<not> arg_run_model (args env) \<longrightarrow>
      run_model uc env q w = Inr w \<and> run_model uc (env\<lparr>path_exists := pe\<rparr>) q w = Inr w)
   \<and> (run_model uc env q w = Inl (e, w') \<longrightarrow> arg_run_model (args env))"
  by (auto simp: run_model_def)

theorem run_model_not_requested_witness:
  "\<not> arg_run_model (args (sample_env\<lparr>args := sample_args\<lparr>arg_run_model := False\<rparr>\<rparr>))
   \<and> \<not> path_exists (sample_env\<lparr>args := sample_args\<lparr>arg_run_model := False\<rparr>\<rparr>) (fs sample_world)
         (GGUF_PATH sample_uc (sample_env\<lparr>args := sample_args\<lparr>arg_run_model := False\<rparr>\<rparr>) ''f16'')
   \<and> run_model sample_uc (sample_env\<lparr>args := sample_args\<lparr>arg_run_model := False\<rparr>\<rparr>) ''f16'' sample_world
       = Inr sample_world
   \<and> run_model sample_uc sample_env ''f16'' sample_world = Inl (FileNotFoundError, sample_world)
   \<and> arg_run_model (args sample_env)"
proof -
  let ?e = "sample_env\<lparr>args := sample_args\<lparr>arg_run_model := False\<rparr>\<rparr>"
  have a: "\<not> arg_run_model (args ?e)" by simp
  have b: "\<not> path_exists ?e (fs sample_world) (GGUF_PATH sample_uc ?e ''f16'')"
    by (simp add: sample_env_def sample_world_def)
  have c: "run_model sample_uc sample_env ''f16'' sample_world = Inl (FileNotFoundError, sample_world)"
    by (simp add: run_model_def sample_env_def sample_args_def sample_world_def)
  have "run_model sample_uc ?e ''f16'' sample_world = Inr sample_world"
    using run_model_not_requested [where env = ?e and uc = sample_uc] a by blast
  moreover have "arg_run_model (args sample_env)"
    using run_model_not_requested [where env = sample_env and uc = sample_uc] c
    by blast
  ultimately show ?thesis using a b c by blast
qed

lemma main_after_stages:
  "stages_before_run uc env q w0 = Inr w \<Longrightarrow> main uc env q w0 = run_model uc env q w"
  by (simp add: main_def)

lemma script_runs_main:
  assumes "os_makedirs env (DOWNLOAD_DIR env) w00 = Inr w0"
    and "truthy (MODEL_TYPE env)" and "QUANTIZATION_TYPE env = Some q" and "q \<noteq> []"
  shows "script uc env w00 = main uc env q w0"
  using assms by (simp add: script_def)

text \<open>
  C6. With the run flag set and no artifact at the expected path the run stage
  raises \<open>FileNotFoundError\<close>; it is the last stage, nothing catches the error,
  and so it is the outcome of the stages and of the whole script.
\<close>

theorem run_model_missing_artifact:
  assumes "arg_run_model (args env)"
    and "\<not> path_exists env (fs w) (GGUF_PATH uc env q)"
  shows "run_model uc env q w = Inl (FileNotFoundError, w)
    \<and> (stages_before_run uc env q w0 = Inr w \<longrightarrow> main uc env q w0 = Inl (FileNotFoundError, w))
    \<and> (os_makedirs env (DOWNLOAD_DIR env) w00 = Inr w0 \<and> truthy (MODEL_TYPE env)
         \<and> QUANTIZATION_TYPE env = Some q \<and> q \<noteq> [] \<and> stages_before_run uc env q w0 = Inr w
        \<longrightarrow> script uc env w00 = Inl (FileNotFoundError, w))"
proof -
  have r: "run_model uc env q w = Inl (FileNotFoundError, w)"
    using assms by (simp add: run_model_def)
  have m: "main uc env q w0 = Inl (FileNotFoundError, w)" if "stages_before_run uc env q w0 = Inr w"
    using that r by (simp add: main_after_stages)
  have "script uc env w00 = Inl (FileNotFoundError, w)"
    if "os_makedirs env (DOWNLOAD_DIR env) w00 = Inr w0" "truthy (MODEL_TYPE env)"
      "QUANTIZATION_TYPE env = Some q" "q \<noteq> []" "stages_before_run uc env q w0 = Inr w"
    using that m by (simp add: script_runs_main)
  with r m show ?thesis by blast
qed

theorem run_model_missing_artifact_witness:
  "arg_run_model (args sample_env)
   \<and> \<not> path_exists sample_env
         (fs (final (stages_before_run sample_uc sample_env ''f16''
                (final (os_makedirs sample_env (DOWNLOAD_DIR sample_env) toolchain_world)))))
         (GGUF_PATH sample_uc sample_env ''f16'')
   \<and> QUANTIZATION_TYPE sample_env = Some ''f16''
   \<and> script sample_uc sample_env toolchain_world =
       Inl (FileNotFoundError,
            final (stages_before_run sample_uc sample_env ''f16''
              (final (os_makedirs sample_env (DOWNLOAD_DIR sample_env) toolchain_world))))"
proof -
  let ?start = "final (os_makedirs sample_env (DOWNLOAD_DIR sample_env) toolchain_world)"
  let ?w = "final (stages_before_run sample_uc sample_env ''f16'' ?start)"
  have a: "arg_run_model (args sample_env)"
    by (simp add: sample_env_def sample_args_def)
  have b: "\<not> path_exists sample_env (fs ?w) (GGUF_PATH sample_uc sample_env ''f16'')"
    by code_simp
  have c: "os_makedirs sample_env (DOWNLOAD_DIR sample_env) toolchain_world = Inr ?start"
    by code_simp
  have d: "truthy (MODEL_TYPE sample_env)"
    by code_simp
  have e: "QUANTIZATION_TYPE sample_env = Some ''f16''"
    by code_simp
  have f: "''f16'' \<noteq> []"
    by simp
  have g: "stages_before_run sample_uc sample_env ''f16'' ?start = Inr ?w"
    by code_simp
  have "script sample_uc sample_env toolchain_world = Inl (FileNotFoundError, ?w)"
    using run_model_missing_artifact [OF a b, of ?start toolchain_world] c d e f g by blast
  with a b e show ?thesis by blast
qed

subsection \<open>The conversion stage\<close>

lemma convert_script_args [simp]: "convert_script (env\<lparr>args := a\<rparr>) = convert_script env"
  by (simp add: convert_script_def LLAMA_CPP_DIR_def)

text \<open>
  C8. The test for the converter script comes first in the conversion stage: when
  the script is missing the stage raises \<open>FileNotFoundError\<close> in the state it was
  called in, for every value of the four flags and whether or not the artifact
  exists.
\<close>

theorem convert_model_script_check_first:
  assumes "\<not> path_exists env (fs w) (convert_script env)"
  shows "convert_model uc
           (env\<lparr>args := (args env)\<lparr>arg_skip_download := sd, arg_skip_conversion := sc,
                                    arg_run_model := rm, arg_verbose := vb\<rparr>\<rparr>) q w
         = Inl (FileNotFoundError, w)"
  using assms by (simp add: convert_model_def)

theorem convert_model_script_check_first_witness:
  "\<not> path_exists sample_env [GGUF_PATH sample_uc sample_env ''f16''] (convert_script sample_env)
   \<and> path_exists sample_env [GGUF_PATH sample_uc sample_env ''f16''] (GGUF_PATH sample_uc sample_env ''f16'')
   \<and> convert_model sample_uc
        (sample_env\<lparr>args := (args sample_env)\<lparr>arg_skip_download := False,
           arg_skip_conversion := True, arg_run_model := True, arg_verbose := False\<rparr>\<rparr>)
        ''f16'' \<lparr>fs = [GGUF_PATH sample_uc sample_env ''f16''], procs = []\<rparr>
      = Inl (FileNotFoundError, \<lparr>fs = [GGUF_PATH sample_uc sample_env ''f16''], procs = []\<rparr>)"
proof -
  let ?w = "\<lparr>fs = [GGUF_PATH sample_uc sample_env ''f16''], procs = []\<rparr>"
  have a: "\<not> path_exists sample_env (fs ?w) (convert_script sample_env)"
    by code_simp
  have b: "path_exists sample_env [GGUF_PATH sample_uc sample_env ''f16''] (GGUF_PATH sample_uc sample_env ''f16'')"
    by (simp add: sample_env_def)
  show ?thesis
    using convert_model_script_check_first
      [OF a, where sd = False and sc = True and rm = True and vb = False and uc = sample_uc
         and q = "''f16''"] a b
    by simp
qed

lemma main_after_convert:
  assumes "stages_before_convert env w0 = Inr w"
  shows "main uc env q w0 = and_then (convert_model uc env q w) (run_model uc env q)"
  using assms by (simp add: main_def stages_before_run_def)

lemma procs_append_neq: "procs w \<noteq> procs w @ [cmd]"
  by simp

text \<open>
  C5. Without the converter script the conversion stage raises
  \<open>FileNotFoundError\<close>, which ends the stages and the script. With the script in
  place, the stage starts the converter, and nothing else, exactly when the
  skip flag is unset and the artifact does not exist; otherwise it returns with
  the state unchanged.
\<close>

theorem convert_model_script_and_guard:
  "(\<not> path_exists env (fs w) (convert_script env) \<longrightarrow>
      convert_model uc env q w = Inl (FileNotFoundError, w)
      \<and> (stages_before_convert env w0 = Inr w \<longrightarrow> main uc env q w0 = Inl (FileNotFoundError, w))
      \<and> (os_makedirs env (DOWNLOAD_DIR env) w00 = Inr w0 \<and> truthy (MODEL_TYPE env)
           \<and> QUANTIZATION_TYPE env = Some q \<and> q \<noteq> [] \<and> stages_before_convert env w0 = Inr w
          \<longrightarrow> script uc env w00 = Inl (FileNotFoundError, w)))
   \<and> (path_exists env (fs w) (convert_script env) \<longrightarrow>
      ((procs (final (convert_model uc env q w)) = procs w @ [convert_cmd env q])
         = (\<not> arg_skip_conversion (args env) \<and> \<not> path_exists env (fs w) (GGUF_PATH uc env q)))
      \<and> (\<not> arg_skip_conversion (args env) \<and> \<not> path_exists env (fs w) (GGUF_PATH uc env q)
           \<longrightarrow> convert_model uc env q w = subprocess_run env (convert_cmd env q) w)
      \<and> (arg_skip_conversion (args env) \<or> path_exists env (fs w) (GGUF_PATH uc env q)
           \<longrightarrow> convert_model uc env q w = Inr w))"
proof (intro conjI impI)
  assume absent: "\<not> path_exists env (fs w) (convert_script env)"
  then show c: "convert_model uc env q w = Inl (FileNotFoundError, w)"
    by (simp add: convert_model_def)
  show m: "main uc env q w0 = Inl (FileNotFoundError, w)" if "stages_before_convert env w0 = Inr w"
    using that c by (simp add: main_after_convert)
  assume "os_makedirs env (DOWNLOAD_DIR env) w00 = Inr w0 \<and> truthy (MODEL_TYPE env)
           \<and> QUANTIZATION_TYPE env = Some q \<and> q \<noteq> [] \<and> stages_before_convert env w0 = Inr w"
  then show "script uc env w00 = Inl (FileNotFoundError, w)"
    using m by (simp add: script_runs_main)
next
  assume present: "path_exists env (fs w) (convert_script env)"
  show "(procs (final (convert_model uc env q w)) = procs w @ [convert_cmd env q])
         = (\<not> arg_skip_conversion (args env) \<and> \<not> path_exists env (fs w) (GGUF_PATH uc env q))"
    using present by (simp add: convert_model_def final_subprocess_run)
next
  assume "path_exists env (fs w) (convert_script env)"
    and "\<not> arg_skip_conversion (args env) \<and> \<not> path_exists env (fs w) (GGUF_PATH uc env q)"
  then show "convert_model uc env q w = subprocess_run env (convert_cmd env q) w"
    by (simp add: convert_model_def)
next
  assume "path_exists env (fs w) (convert_script env)"
    and "arg_skip_conversion (args env) \<or> path_exists env (fs w) (GGUF_PATH uc env q)"
  then show "convert_model uc env q w = Inr w"
    by (auto simp: convert_model_def)
qed

theorem convert_model_script_and_guard_witness:
  "\<not> path_exists sample_env
       (fs (final (stages_before_convert sample_env
              (final (os_makedirs sample_env (DOWNLOAD_DIR sample_env) sample_world)))))
       (convert_script sample_env)
   \<and> script sample_uc sample_env sample_world =
       Inl (FileNotFoundError,
            final (stages_before_convert sample_env
              (final (os_makedirs sample_env (DOWNLOAD_DIR sample_env) sample_world))))
   \<and> path_exists sample_env (fs toolchain_world) (convert_script sample_env)
   \<and> \<not> arg_skip_conversion (args sample_env)
   \<and> \<not> path_exists sample_env (fs toolchain_world) (GGUF_PATH sample_uc sample_env ''f16'')
   \<and> procs (final (convert_model sample_uc sample_env ''f16'' toolchain_world)) =
       procs toolchain_world @ [convert_cmd sample_env ''f16'']
   \<and> arg_skip_conversion (args (sample_env\<lparr>args := sample_args\<lparr>arg_skip_conversion := True\<rparr>\<rparr>))
   \<and> convert_model sample_uc (sample_env\<lparr>args := sample_args\<lparr>arg_skip_conversion := True\<rparr>\<rparr>) ''f16''
         toolchain_world = Inr toolchain_world"
proof -
  let ?start = "final (os_makedirs sample_env (DOWNLOAD_DIR sample_env) sample_world)"
  let ?reached = "final (stages_before_convert sample_env ?start)"
  let ?skip = "sample_env\<lparr>args := sample_args\<lparr>arg_skip_conversion := True\<rparr>\<rparr>"
  have a: "\<not> path_exists sample_env (fs ?reached) (convert_script sample_env)"
    by code_simp
  have b: "os_makedirs sample_env (DOWNLOAD_DIR sample_env) sample_world = Inr ?start"
    by code_simp
  have c: "truthy (MODEL_TYPE sample_env)"
    by code_simp
  have d: "QUANTIZATION_TYPE sample_env = Some ''f16''"
    by code_simp
  have e: "''f16'' \<noteq> []"
    by simp
  have f: "stages_before_convert sample_env ?start = Inr ?reached"
    by code_simp
  have g: "path_exists sample_env (fs toolchain_world) (convert_script sample_env)"
    by (simp add: toolchain_world_def sample_env_def)
  have h: "\<not> arg_skip_conversion (args sample_env)"
    by (simp add: sample_env_def sample_args_def)
  have i: "\<not> path_exists sample_env (fs toolchain_world) (GGUF_PATH sample_uc sample_env ''f16'')"
    by code_simp
  have j: "arg_skip_conversion (args ?skip)"
    by simp
  have k: "path_exists ?skip (fs toolchain_world) (convert_script ?skip)"
    by code_simp
  have "script sample_uc sample_env sample_world = Inl (FileNotFoundError, ?reached)"
    using convert_model_script_and_guard
      [of sample_env ?reached sample_uc "''f16''" ?start sample_world]
      a b c d e f by blast
  moreover have "procs (final (convert_model sample_uc sample_env ''f16'' toolchain_world)) =
       procs toolchain_world @ [convert_cmd sample_env ''f16'']"
    using convert_model_script_and_guard
      [where env = sample_env and w = toolchain_world and uc = sample_uc and q = "''f16''"]
      g h i by blast
  moreover have "convert_model sample_uc ?skip ''f16'' toolchain_world = Inr toolchain_world"
    using convert_model_script_and_guard
      [where env = ?skip and w = toolchain_world and uc = sample_uc and q = "''f16''"]
      j k by blast
  ultimately show ?thesis using a g h i j by blast
qed

subsection \<open>The download stage\<close>

text \<open>
  C4, as the code has it. The download stage starts the download tool exactly
  when the skip flag is unset, the save directory does not exist and the creation
  of that directory succeeds. If the creation raises, the stage ends with that
  error and nothing is started. If the flag is set or the directory exists, in
  particular on a second run, the stage returns with the state unchanged. Only
  the existence of the directory is looked at.
\<close>

theorem download_model_guard:
  "((procs (final (download_model env w)) = procs w @ [download_cmd env])
      = (\<not> arg_skip_download (args env) \<and> \<not> path_exists env (fs w) (SAVE_DIR env)
         \<and> (\<exists>fs1. makedirs env (SAVE_DIR env) (fs w) = Inr fs1)))
   \<and> (\<not> arg_skip_download (args env) \<and> \<not> path_exists env (fs w) (SAVE_DIR env) \<longrightarrow>
        (\<forall>fs1. makedirs env (SAVE_DIR env) (fs w) = Inr fs1 \<longrightarrow>
           download_model env w = subprocess_run env (download_cmd env) (w\<lparr>fs := fs1\<rparr>))
        \<and> (\<forall>e. makedirs env (SAVE_DIR env) (fs w) = Inl e \<longrightarrow>
             download_model env w = Inl (e, w)))
   \<and> (arg_skip_download (args env) \<or> path_exists env (fs w) (SAVE_DIR env) \<longrightarrow>
        download_model env w = Inr w)"
proof (intro conjI impI allI)
  show "(procs (final (download_model env w)) = procs w @ [download_cmd env])
      = (\<not> arg_skip_download (args env) \<and> \<not> path_exists env (fs w) (SAVE_DIR env)
         \<and> (\<exists>fs1. makedirs env (SAVE_DIR env) (fs w) = Inr fs1))"
  proof (cases "makedirs env (SAVE_DIR env) (fs w)")
    case (Inl e)
    then have "os_makedirs env (SAVE_DIR env) w = Inl (e, w)"
      by (simp add: os_makedirs_def)
    then show ?thesis
      using Inl by (simp add: download_model_def)
  next
    case (Inr fs1)
    then have "os_makedirs env (SAVE_DIR env) w = Inr (w\<lparr>fs := fs1\<rparr>)"
      by (simp add: os_makedirs_def)
    then show ?thesis
      using Inr by (simp add: download_model_def final_subprocess_run)
  qed
next
  fix fs1
  assume "\<not> arg_skip_download (args env) \<and> \<not> path_exists env (fs w) (SAVE_DIR env)"
    and "makedirs env (SAVE_DIR env) (fs w) = Inr fs1"
  then show "download_model env w = subprocess_run env (download_cmd env) (w\<lparr>fs := fs1\<rparr>)"
    by (simp add: download_model_def os_makedirs_def)
next
  fix e
  assume "\<not> arg_skip_download (args env) \<and> \<not> path_exists env (fs w) (SAVE_DIR env)"
    and "makedirs env (SAVE_DIR env) (fs w) = Inl e"
  then show "download_model env w = Inl (e, w)"
    by (simp add: download_model_def os_makedirs_def)
next
  assume "arg_skip_download (args env) \<or> path_exists env (fs w) (SAVE_DIR env)"
  then show "download_model env w = Inr w"
    by (auto simp: download_model_def)
qed

theorem download_model_guard_witness:
  "\<not> arg_skip_download (args sample_env)
   \<and> \<not> path_exists sample_env (fs sample_world) (SAVE_DIR sample_env)
   \<and> makedirs sample_env (SAVE_DIR sample_env) (fs sample_world) = Inr [SAVE_DIR sample_env]
   \<and> procs (final (download_model sample_env sample_world)) =
       procs sample_world @ [download_cmd sample_env]
   \<and> makedirs readonly_env (SAVE_DIR readonly_env) (fs sample_world) = Inl OSError
   \<and> download_model readonly_env sample_world = Inl (OSError, sample_world)
   \<and> path_exists sample_env (fs (final (download_model sample_env sample_world)))
        (SAVE_DIR sample_env)
   \<and> download_model sample_env (final (download_model sample_env sample_world)) =
       Inr (final (download_model sample_env sample_world))"
proof -
  let ?again = "final (download_model sample_env sample_world)"
  have a: "\<not> arg_skip_download (args sample_env)
           \<and> \<not> path_exists sample_env (fs sample_world) (SAVE_DIR sample_env)"
    by (simp add: sample_env_def sample_args_def sample_world_def)
  have b: "makedirs sample_env (SAVE_DIR sample_env) (fs sample_world) = Inr [SAVE_DIR sample_env]"
    by (simp add: sample_env_def sample_world_def)
  have c: "\<not> arg_skip_download (args readonly_env)
           \<and> \<not> path_exists readonly_env (fs sample_world) (SAVE_DIR readonly_env)"
    by (simp add: readonly_env_def sample_env_def sample_args_def sample_world_def)
  have d: "makedirs readonly_env (SAVE_DIR readonly_env) (fs sample_world) = Inl OSError"
    by (simp add: readonly_env_def)
  have e: "path_exists sample_env (fs ?again) (SAVE_DIR sample_env)"
    by code_simp
  have "procs (final (download_model sample_env sample_world)) =
       procs sample_world @ [download_cmd sample_env]"
    using download_model_guard [of sample_env sample_world] a b by blast
  moreover have "download_model readonly_env sample_world = Inl (OSError, sample_world)"
    using download_model_guard [of readonly_env sample_world] c d by blast
  moreover have "download_model sample_env ?again = Inr ?again"
    using download_model_guard [of sample_env ?again] e by blast
  ultimately show ?thesis using a b d e by blast
qed

text \<open>
  C4 as stated fails: with the skip flag unset and no save directory, a directory
  creation that raises ends the stage before the download tool is started.
\<close>

theorem download_model_counterexample:
  "\<not> arg_skip_download (args readonly_env)
   \<and> \<not> path_exists readonly_env (fs sample_world) (SAVE_DIR readonly_env)
   \<and> download_model readonly_env sample_world = Inl (OSError, sample_world)
   \<and> procs (final (download_model readonly_env sample_world))
       \<noteq> procs sample_world @ [download_cmd readonly_env]"
  by (simp add: readonly_env_def sample_env_def sample_args_def sample_world_def
      download_model_def os_makedirs_def)

subsection \<open>Splitting and joining\<close>

lemma split_acc_no_sep: "sep \<notin> set s \<Longrightarrow> split_acc sep acc s = [acc @ s]"
  by (induction s arbitrary: acc) auto

lemma split_acc_not_Nil: "split_acc sep acc s \<noteq> []"
  by (induction s arbitrary: acc) auto

lemma last_split_acc_after_sep:
  "last (split_acc sep acc (s @ sep # t)) = last (split_acc sep [] t)"
  by (induction s arbitrary: acc) (auto simp: split_acc_not_Nil)

text \<open>The last segment is what follows the last separator, or the whole string.\<close>

lemma last_split:
  "last (split s sep) = (if sep \<in> set s then rev (takeWhile (\<lambda>c. c \<noteq> sep) (rev s)) else s)"
proof (cases "sep \<in> set s")
  case False
  then show ?thesis by (simp add: split_def split_acc_no_sep)
next
  case True
  then obtain pre t where s: "s = pre @ sep # t" and t: "sep \<notin> set t"
    by (auto dest: split_list_last)
  have "last (split s sep) = t"
    using t by (simp add: s split_def last_split_acc_after_sep split_acc_no_sep)
  moreover have "takeWhile (\<lambda>c. c \<noteq> sep) (rev s) = rev t"
    using t by (auto simp: s takeWhile_tail)
  ultimately show ?thesis using True by simp
qed

lemma last_split_segment:
  "sep \<notin> set (last (split s sep))
   \<and> (s = last (split s sep) \<or> (\<exists>pre. s = pre @ sep # last (split s sep)))"
proof (cases "sep \<in> set s")
  case False
  then show ?thesis by (simp add: split_def split_acc_no_sep)
next
  case True
  then obtain pre t where s: "s = pre @ sep # t" and t: "sep \<notin> set t"
    by (auto dest: split_list_last)
  have "last (split s sep) = t"
    using t by (simp add: s split_def last_split_acc_after_sep split_acc_no_sep)
  then show ?thesis using s t by auto
qed

lemma path_join_relative:
  assumes "a \<noteq> []" and "last a \<noteq> CHR ''/''" and "\<not> startswith b ''/''"
  shows "path_join a b = a @ ''/'' @ b"
  using assms by (simp add: path_join_def)

lemma startswith_slash: "startswith b ''/'' \<longleftrightarrow> b \<noteq> [] \<and> hd b = CHR ''/''"
  by (cases b) auto

lemma DOWNLOAD_DIR_eq:
  "DOWNLOAD_DIR env =
     (if SCRIPT_DIR env = [] \<or> last (SCRIPT_DIR env) = CHR ''/''
      then SCRIPT_DIR env @ ''models'' else SCRIPT_DIR env @ ''/models'')"
  by (simp add: DOWNLOAD_DIR_def path_join_def)

lemma MODEL_SHORTNAME_no_slash: "CHR ''/'' \<notin> set (MODEL_SHORTNAME env)"
  using last_split_segment [of "CHR ''/''" "MODEL_NAME env"] by (simp add: MODEL_SHORTNAME_def)

lemma SAVE_DIR_eq: "SAVE_DIR env = DOWNLOAD_DIR env @ ''/'' @ MODEL_SHORTNAME env"
proof -
  have "\<not> startswith (MODEL_SHORTNAME env) ''/''"
    using MODEL_SHORTNAME_no_slash [of env]
    by (cases "MODEL_SHORTNAME env") auto
  moreover have "DOWNLOAD_DIR env \<noteq> []" and "last (DOWNLOAD_DIR env) \<noteq> CHR ''/''"
    by (simp_all add: DOWNLOAD_DIR_eq)
  ultimately show ?thesis
    unfolding SAVE_DIR_def by (intro path_join_relative)
qed

lemma GGUF_PATH_eq:
  "GGUF_PATH uc env q =
     SAVE_DIR env @ (if MODEL_SHORTNAME env = [] then [] else ''/'')
       @ MODEL_SHORTNAME env @ ''-'' @ upper uc q @ ''.gguf''"
proof -
  let ?f = "MODEL_SHORTNAME env @ ''-'' @ upper uc q @ ''.gguf''"
  have f: "\<not> startswith ?f ''/''"
    using MODEL_SHORTNAME_no_slash [of env]
    by (cases "MODEL_SHORTNAME env") auto
  have l: "last (SAVE_DIR env) = CHR ''/'' \<longleftrightarrow> MODEL_SHORTNAME env = []"
    using MODEL_SHORTNAME_no_slash [of env]
    by (cases "MODEL_SHORTNAME env" rule: rev_cases) (auto simp: SAVE_DIR_eq)
  have n: "SAVE_DIR env \<noteq> []"
    by (simp add: SAVE_DIR_eq)
  show ?thesis
    using f l n by (simp add: GGUF_PATH_def path_join_def)
qed

subsection \<open>Upper case\<close>

lemma upper_char_fixed: "upper_char c = c \<longleftrightarrow> \<not> islower_char c"
proof (cases "islower_char c")
  case False
  then show ?thesis by (simp add: upper_char_def)
next
  case True
  then have "(of_char c :: nat) - 32 < 256"
    unfolding islower_char_def by linarith
  then have "(of_char (char_of ((of_char c :: nat) - 32)) :: nat) = of_char c - 32"
    by simp
  moreover have "(of_char c :: nat) - 32 \<noteq> of_char c"
    using True unfolding islower_char_def by linarith
  ultimately have "char_of ((of_char c :: nat) - 32) \<noteq> c"
    by metis
  then show ?thesis using True by (simp add: upper_char_def)
qed

lemma utf8_len_pos: "0 < utf8_len c"
  by (simp add: utf8_len_def)

lemma concat_utf8_chars: "concat (utf8_chars q) = q"
  by (induction q rule: utf8_chars.induct) simp_all

lemma utf8_chars_not_Nil: "s \<in> set (utf8_chars q) \<Longrightarrow> s \<noteq> []"
  by (induction q rule: utf8_chars.induct) auto

lemma utf8_chars_eq_Nil: "utf8_chars q = [] \<longleftrightarrow> q = []"
  by (cases q) simp_all

text \<open>A complete character in front is split off as it is.\<close>

lemma utf8_chars_complete:
  assumes "complete_char s"
  shows "utf8_chars (s @ r) = s # utf8_chars r"
proof -
  obtain c cs where s: "s = c # cs" and l: "length cs = utf8_len c - 1"
    using assms by (cases s) (auto simp: complete_char_def)
  then show ?thesis by simp
qed

lemma utf8_chars_well_formed:
  "well_formed t \<Longrightarrow> utf8_chars (t @ r) = utf8_chars t @ utf8_chars r"
proof (induction t rule: utf8_chars.induct)
  case 1
  then show ?case by simp
next
  case (2 c cs)
  let ?n = "utf8_len c - 1"
  from "2.prems" have first: "complete_char (c # take ?n cs)"
    and rest: "well_formed (drop ?n cs)"
    by (simp_all add: well_formed_def)
  from first have len: "?n \<le> length cs"
    by (auto simp: complete_char_def min_def split: if_splits)
  have "utf8_chars ((c # cs) @ r) = (c # take ?n cs) # utf8_chars (drop ?n cs @ r)"
    using len by simp
  also have "utf8_chars (drop ?n cs @ r) = utf8_chars (drop ?n cs) @ utf8_chars r"
    using rest by (rule "2.IH")
  finally show ?case by simp
qed

lemma well_formed_complete: "complete_char s \<Longrightarrow> well_formed s"
  using utf8_chars_complete [of s "[]"] by (simp add: well_formed_def)

text \<open>
  In the list of the characters of a string every character is complete, except
  possibly the last.
\<close>

lemma utf8_chars_cases:
  "utf8_chars (c # cs) = s # ss \<Longrightarrow> complete_char s \<or> ss = []"
proof -
  assume a: "utf8_chars (c # cs) = s # ss"
  let ?n = "utf8_len c - 1"
  from a have s: "s = c # take ?n cs" and ss: "ss = utf8_chars (drop ?n cs)" by simp_all
  show ?thesis
  proof (cases "?n \<le> length cs")
    case True
    then have "complete_char s"
      using utf8_len_pos [of c] by (simp add: s complete_char_def)
    then show ?thesis ..
  next
    case False
    then have "ss = []" by (simp add: ss)
    then show ?thesis ..
  qed
qed

text \<open>An incomplete character is not changed.\<close>

lemma upper_one_incomplete: "\<not> complete_char s \<Longrightarrow> upper_one uc s = s"
  by (cases s) (auto simp: upper_one_def complete_char_def utf8_len_def)

lemma upper_one_not_Nil:
  assumes "case_table uc" and "s \<noteq> []"
  shows "upper_one uc s \<noteq> []"
  using assms by (auto simp: upper_one_def case_table_def)

lemma upper_one_well_formed:
  assumes "case_table uc" and "complete_char s"
  shows "well_formed (upper_one uc s)"
proof (cases "length s = 1")
  case True
  then obtain c where s: "s = [c]" by (cases s) auto
  show ?thesis
  proof (cases "(of_char c :: nat) < 128")
    case False
    then show ?thesis using assms(2) s by (simp add: upper_one_def well_formed_complete)
  next
    case True
    have "(of_char (upper_char c) :: nat) < 128"
    proof (cases "islower_char c")
      case False
      then show ?thesis using True by (simp add: upper_char_def)
    next
      case lower: True
      then have "(of_char c :: nat) - 32 < 128"
        unfolding islower_char_def by linarith
      then show ?thesis using lower by (simp add: upper_char_def)
    qed
    then have "complete_char [upper_char c]"
      by (simp add: complete_char_def utf8_len_def)
    then show ?thesis using s True by (simp add: upper_one_def well_formed_complete)
  qed
next
  case False
  then show ?thesis using assms by (simp add: upper_one_def case_table_def)
qed

text \<open>The characters of the upper-case string are those of the upper-case forms.\<close>

lemma utf8_chars_upper:
  assumes "case_table uc"
  shows "utf8_chars (upper uc q) = concat (map (\<lambda>s. utf8_chars (upper_one uc s)) (utf8_chars q))"
proof (induction q rule: utf8_chars.induct)
  case 1
  show ?case by (simp add: upper_def)
next
  case (2 c cs)
  let ?n = "utf8_len c - 1"
  let ?s = "c # take ?n cs"
  have u: "upper uc (c # cs) = upper_one uc ?s @ upper uc (drop ?n cs)"
    by (simp add: upper_def)
  have "utf8_chars (upper_one uc ?s @ upper uc (drop ?n cs))
        = utf8_chars (upper_one uc ?s) @ utf8_chars (upper uc (drop ?n cs))"
  proof (cases "complete_char ?s")
    case True
    then show ?thesis
      using assms by (intro utf8_chars_well_formed upper_one_well_formed)
  next
    case False
    then have "utf8_chars (drop ?n cs) = []"
      using utf8_chars_cases [of c cs ?s "utf8_chars (drop ?n cs)"] by simp
    then have "upper uc (drop ?n cs) = []"
      by (simp add: upper_def)
    then show ?thesis by simp
  qed
  then show ?case using u "2.IH" by simp
qed

text \<open>A list that is not changed by replacing each element by a non-empty list.\<close>

lemma concat_map_fixed:
  assumes "\<forall>x \<in> set xs. g x \<noteq> []" and "concat (map g xs) = xs"
  shows "\<forall>x \<in> set xs. g x = [x]"
  using assms
proof (induction xs)
  case Nil
  show ?case by simp
next
  case (Cons x xs)
  have le: "length xs \<le> length (concat (map g xs))"
    using Cons.prems(1)
  proof (induction xs)
    case Nil
    show ?case by simp
  next
    case (Cons y ys)
    then have "g y \<noteq> []" by simp
    then have "1 \<le> length (g y)" by (cases "g y") simp_all
    moreover have "length ys \<le> length (concat (map g ys))" using Cons by simp
    ultimately show ?case by simp
  qed
  obtain y ys where gx: "g x = y # ys"
    using Cons.prems(1) by (cases "g x") auto
  with Cons.prems(2) have y: "y = x" and r: "ys @ concat (map g xs) = xs" by simp_all
  from r have "length ys + length (concat (map g xs)) = length xs"
    by (metis length_append)
  with le have "length ys = 0" by linarith
  then have "ys = []" by simp
  with r have c: "concat (map g xs) = xs" by simp
  have "\<forall>x \<in> set xs. g x \<noteq> []" using Cons.prems(1) by simp
  then have "\<forall>x \<in> set xs. g x = [x]" using c by (rule Cons.IH)
  then show ?case using gx y \<open>ys = []\<close> by simp
qed

lemma upper_fixed:
  assumes "case_table uc"
  shows "upper uc q = q \<longleftrightarrow> (\<forall>s \<in> set (utf8_chars q). upper_one uc s = s)"
proof
  assume "\<forall>s \<in> set (utf8_chars q). upper_one uc s = s"
  then have "map (upper_one uc) (utf8_chars q) = utf8_chars q"
    by (simp add: map_idI)
  then show "upper uc q = q"
    by (simp add: upper_def concat_utf8_chars)
next
  assume "upper uc q = q"
  then have same: "concat (map (\<lambda>s. utf8_chars (upper_one uc s)) (utf8_chars q)) = utf8_chars q"
    using utf8_chars_upper [OF assms, of q] by simp
  have "\<forall>s \<in> set (utf8_chars q). utf8_chars (upper_one uc s) \<noteq> []"
    using assms by (auto simp: utf8_chars_eq_Nil dest: utf8_chars_not_Nil upper_one_not_Nil)
  then have one: "\<forall>s \<in> set (utf8_chars q). utf8_chars (upper_one uc s) = [s]"
    using same by (rule concat_map_fixed)
  show "\<forall>s \<in> set (utf8_chars q). upper_one uc s = s"
  proof
    fix s
    assume "s \<in> set (utf8_chars q)"
    with one have "utf8_chars (upper_one uc s) = [s]" by blast
    then have "concat (utf8_chars (upper_one uc s)) = s" by simp
    then show "upper_one uc s = s" by (simp add: concat_utf8_chars)
  qed
qed

text \<open>On ASCII text every byte is a character.\<close>

lemma upper_ascii:
  "\<forall>c \<in> set q. (of_char c :: nat) < 128 \<Longrightarrow> upper uc q = map upper_char q"
proof (induction q)
  case Nil
  show ?case by (simp add: upper_def)
next
  case (Cons c q)
  then have "utf8_len c = 1" by (simp add: utf8_len_def)
  then have "upper uc (c # q) = upper_one uc [c] @ upper uc q"
    by (simp add: upper_def)
  then show ?case using Cons by (simp add: upper_one_def)
qed

lemma upper_ascii_fixed:
  assumes "\<forall>c \<in> set q. (of_char c :: nat) < 128"
  shows "upper uc q = q \<longleftrightarrow> (\<forall>c \<in> set q. \<not> islower_char c)"
proof -
  have "map upper_char q = q \<longleftrightarrow> (\<forall>c \<in> set q. \<not> islower_char c)"
    by (induction q) (auto simp: upper_char_fixed)
  then show ?thesis using assms by (simp add: upper_ascii)
qed

lemma case_table_sample_uc: "case_table sample_uc"
  unfolding case_table_def
proof (intro allI impI)
  fix s
  assume c: "complete_char s"
  show "sample_uc s \<noteq> [] \<and> well_formed (sample_uc s)"
  proof (cases "s = [CHR 0xC3, CHR 0x9F]")
    case True
    have "well_formed ''SS''" by code_simp
    then show ?thesis using True by (simp add: sample_uc_def)
  next
    case False
    then show ?thesis
      using c by (auto simp: sample_uc_def complete_char_def well_formed_complete)
  qed
qed

text \<open>
  C10. The file name of the artifact carries the quantization type in upper case,
  the converter is given the type as fetched, after \<open>--outtype\<close>. The two
  spellings differ exactly when the type is not already in upper case, that is,
  when one of its characters is changed by upper-casing; in ASCII text these are
  the letters \<open>a\<close> to \<open>z\<close>.
\<close>

theorem quantization_spelling:
  "GGUF_PATH uc env q =
     SAVE_DIR env @ (if MODEL_SHORTNAME env = [] then [] else ''/'')
       @ MODEL_SHORTNAME env @ ''-'' @ upper uc q @ ''.gguf''
   \<and> convert_cmd env q ! 3 = ''--outtype'' \<and> convert_cmd env q ! 4 = q
   \<and> length (convert_cmd env q) = 5
   \<and> (\<not> arg_skip_conversion (args env) \<and> path_exists env (fs w) (convert_script env)
        \<and> \<not> path_exists env (fs w) (GGUF_PATH uc env q)
       \<longrightarrow> procs (final (convert_model uc env q w)) = procs w @ [convert_cmd env q])
   \<and> (case_table uc \<longrightarrow>
        (upper uc q \<noteq> q) = (\<exists>s \<in> set (utf8_chars q). upper_one uc s \<noteq> s))
   \<and> ((\<forall>c \<in> set q. (of_char c :: nat) < 128) \<longrightarrow>
        (upper uc q \<noteq> q) = (\<exists>c \<in> set q. islower_char c))"
proof (intro conjI impI)
  show "GGUF_PATH uc env q =
     SAVE_DIR env @ (if MODEL_SHORTNAME env = [] then [] else ''/'')
       @ MODEL_SHORTNAME env @ ''-'' @ upper uc q @ ''.gguf''"
    by (rule GGUF_PATH_eq)
  show "convert_cmd env q ! 3 = ''--outtype''" and "convert_cmd env q ! 4 = q"
    and "length (convert_cmd env q) = 5"
    by (simp_all add: convert_cmd_def)
next
  assume "\<not> arg_skip_conversion (args env) \<and> path_exists env (fs w) (convert_script env)
        \<and> \<not> path_exists env (fs w) (GGUF_PATH uc env q)"
  then show "procs (final (convert_model uc env q w)) = procs w @ [convert_cmd env q]"
    by (simp add: convert_model_def final_subprocess_run)
next
  assume "case_table uc"
  then show "(upper uc q \<noteq> q) = (\<exists>s \<in> set (utf8_chars q). upper_one uc s \<noteq> s)"
    by (simp add: upper_fixed)
next
  assume "\<forall>c \<in> set q. (of_char c :: nat) < 128"
  then show "(upper uc q \<noteq> q) = (\<exists>c \<in> set q. islower_char c)"
    by (simp add: upper_ascii_fixed)
qed

theorem quantization_spelling_witness:
  "islower_char CHR ''f'' \<and> upper sample_uc ''f16'' \<noteq> ''f16''
   \<and> upper sample_uc ''F16'' = ''F16''
   \<and> upper_one sample_uc [CHR 0xC3, CHR 0x9F] \<noteq> [CHR 0xC3, CHR 0x9F]
   \<and> upper sample_uc [CHR 0xC3, CHR 0x9F] \<noteq> [CHR 0xC3, CHR 0x9F]
   \<and> last (procs (final (convert_model sample_uc sample_env ''f16'' toolchain_world))) ! 4 = ''f16''
   \<and> GGUF_PATH sample_uc sample_env ''f16'' =
       ''/opt/tool/models/DeepSeek-R1-Distill-Qwen-32B/DeepSeek-R1-Distill-Qwen-32B-F16.gguf''"
proof -
  let ?sharp = "[CHR 0xC3, CHR 0x9F]"
  have a: "islower_char CHR ''f''"
    by (simp add: islower_char_def)
  have ascii: "\<forall>c \<in> set ''f16''. (of_char c :: nat) < 128"
    and ASCII: "\<forall>c \<in> set ''F16''. (of_char c :: nat) < 128"
    by simp_all
  have b: "\<not> (\<exists>c \<in> set ''F16''. islower_char c)"
    by (simp add: islower_char_def)
  have c: "\<not> arg_skip_conversion (args sample_env)
           \<and> path_exists sample_env (fs toolchain_world) (convert_script sample_env)"
    by (simp add: sample_env_def sample_args_def toolchain_world_def)
  have d: "\<not> path_exists sample_env (fs toolchain_world) (GGUF_PATH sample_uc sample_env ''f16'')"
    by code_simp
  have e: "SAVE_DIR sample_env = ''/opt/tool/models/DeepSeek-R1-Distill-Qwen-32B''"
    and f: "MODEL_SHORTNAME sample_env = ''DeepSeek-R1-Distill-Qwen-32B''"
    and g: "upper sample_uc ''f16'' = ''F16''"
    by code_simp+
  have h: "utf8_chars ?sharp = [?sharp]"
    and i: "upper_one sample_uc ?sharp \<noteq> ?sharp"
    by code_simp+
  have "\<exists>c \<in> set ''f16''. islower_char c"
    using a by simp
  then have "upper sample_uc ''f16'' \<noteq> ''f16''"
    using quantization_spelling [of sample_uc sample_env "''f16''" toolchain_world] ascii
    by blast
  moreover have "upper sample_uc ''F16'' = ''F16''"
    using quantization_spelling [of sample_uc sample_env "''F16''" toolchain_world] ASCII b
    by blast
  moreover have "\<exists>s \<in> set (utf8_chars ?sharp). upper_one sample_uc s \<noteq> s"
    using h i by simp
  then have "upper sample_uc ?sharp \<noteq> ?sharp"
    using quantization_spelling [of sample_uc sample_env ?sharp toolchain_world]
      case_table_sample_uc by blast
  moreover have "procs (final (convert_model sample_uc sample_env ''f16'' toolchain_world)) =
        procs toolchain_world @ [convert_cmd sample_env ''f16'']"
    using quantization_spelling [of sample_uc sample_env "''f16''" toolchain_world] c d by blast
  moreover have "convert_cmd sample_env ''f16'' ! 4 = ''f16''"
    using quantization_spelling [of sample_uc sample_env "''f16''" toolchain_world] by blast
  moreover have "GGUF_PATH sample_uc sample_env ''f16'' =
     SAVE_DIR sample_env @ (if MODEL_SHORTNAME sample_env = [] then [] else ''/'')
       @ MODEL_SHORTNAME sample_env @ ''-'' @ upper sample_uc ''f16'' @ ''.gguf''"
    using quantization_spelling [of sample_uc sample_env "''f16''" toolchain_world] by blast
  ultimately show ?thesis using a e f g i by simp
qed

subsection \<open>Paths\<close>

text \<open>
  C7, as the code has it. The download directory, the save directory and the
  directory of the converter are determined by the model name and the directory of
  the script. The path of the artifact is determined by these two and the
  quantization type that the metadata fetch returned. The short name is the
  part of the model name after its last \<open>/\<close>, the weights go to
  \<open>models/<shortname>\<close> and the artifact is \<open><shortname>-<QUANT>.gguf\<close> in that
  directory.
\<close>

theorem paths_determined:
  assumes "MODEL_NAME e1 = MODEL_NAME e2" and "SCRIPT_DIR e1 = SCRIPT_DIR e2"
  shows "DOWNLOAD_DIR e1 = DOWNLOAD_DIR e2 \<and> SAVE_DIR e1 = SAVE_DIR e2
    \<and> LLAMA_CPP_DIR e1 = LLAMA_CPP_DIR e2 \<and> GGUF_PATH uc e1 q = GGUF_PATH uc e2 q
    \<and> MODEL_SHORTNAME e1 = last (split (MODEL_NAME e1) CHR ''/'')
    \<and> CHR ''/'' \<notin> set (MODEL_SHORTNAME e1)
    \<and> (MODEL_NAME e1 = MODEL_SHORTNAME e1
        \<or> (\<exists>pre. MODEL_NAME e1 = pre @ ''/'' @ MODEL_SHORTNAME e1))
    \<and> SAVE_DIR e1 = DOWNLOAD_DIR e1 @ ''/'' @ MODEL_SHORTNAME e1
    \<and> GGUF_PATH uc e1 q =
        SAVE_DIR e1 @ (if MODEL_SHORTNAME e1 = [] then [] else ''/'')
          @ MODEL_SHORTNAME e1 @ ''-'' @ upper uc q @ ''.gguf''"
proof -
  have s: "MODEL_SHORTNAME e1 = MODEL_SHORTNAME e2"
    using assms by (simp add: MODEL_SHORTNAME_def)
  have d: "DOWNLOAD_DIR e1 = DOWNLOAD_DIR e2"
    using assms by (simp add: DOWNLOAD_DIR_def)
  have v: "SAVE_DIR e1 = SAVE_DIR e2"
    using s d by (simp add: SAVE_DIR_def)
  have l: "LLAMA_CPP_DIR e1 = LLAMA_CPP_DIR e2"
    using assms by (simp add: LLAMA_CPP_DIR_def)
  have g: "GGUF_PATH uc e1 q = GGUF_PATH uc e2 q"
    using s v by (simp add: GGUF_PATH_def)
  have n: "MODEL_NAME e1 = MODEL_SHORTNAME e1
        \<or> (\<exists>pre. MODEL_NAME e1 = pre @ ''/'' @ MODEL_SHORTNAME e1)"
    using last_split_segment [of "CHR ''/''" "MODEL_NAME e1"] by (simp add: MODEL_SHORTNAME_def)
  show ?thesis
    using d v l g n MODEL_SHORTNAME_no_slash [of e1] SAVE_DIR_eq [of e1] GGUF_PATH_eq [of uc e1 q]
    by (simp add: MODEL_SHORTNAME_def)
qed

theorem paths_determined_witness:
  "MODEL_NAME sample_env = MODEL_NAME gptq_env \<and> SCRIPT_DIR sample_env = SCRIPT_DIR gptq_env
   \<and> SAVE_DIR sample_env = SAVE_DIR gptq_env
   \<and> GGUF_PATH sample_uc sample_env ''gptq'' = GGUF_PATH sample_uc gptq_env ''gptq''
   \<and> SAVE_DIR sample_env = ''/opt/tool/models/DeepSeek-R1-Distill-Qwen-32B''"
proof -
  have a: "MODEL_NAME sample_env = MODEL_NAME gptq_env"
    by (simp add: gptq_env_def MODEL_NAME_def)
  have b: "SCRIPT_DIR sample_env = SCRIPT_DIR gptq_env"
    by (simp add: gptq_env_def)
  have c: "SAVE_DIR sample_env = ''/opt/tool/models/DeepSeek-R1-Distill-Qwen-32B''"
    by code_simp
  have "SAVE_DIR sample_env = SAVE_DIR gptq_env
        \<and> GGUF_PATH sample_uc sample_env ''gptq'' = GGUF_PATH sample_uc gptq_env ''gptq''"
    using paths_determined [OF a b, where uc = sample_uc and q = "''gptq''"] by blast
  then show ?thesis using a b c by blast
qed

text \<open>
  C7 as stated fails: two executions with the same model name and the same script
  directory, between which the hub's configuration of the model has changed, build
  different paths for the artifact.
\<close>

theorem GGUF_PATH_counterexample:
  "MODEL_NAME sample_env = MODEL_NAME gptq_env \<and> SCRIPT_DIR sample_env = SCRIPT_DIR gptq_env
   \<and> QUANTIZATION_TYPE sample_env = Some ''f16'' \<and> QUANTIZATION_TYPE gptq_env = Some ''gptq''
   \<and> GGUF_PATH sample_uc sample_env ''f16'' \<noteq> GGUF_PATH sample_uc gptq_env ''gptq''"
  by code_simp

subsection \<open>Metadata\<close>






end
